theory Spec2Isabelle
  imports Main
begin

section \<open>my-shell: the command-dispatch core of \<^verbatim>\<open>my-shell.c\<close>\<close>

text \<open>
  The interpreter reads a line, splits it into an argument vector with \<^verbatim>\<open>strtok\<close>,
  lets \<^verbatim>\<open>handle_builtin\<close> intercept \<^verbatim>\<open>exit\<close>, \<^verbatim>\<open>quit\<close>, \<^verbatim>\<open>cd\<close> and \<^verbatim>\<open>chdir\<close>, and otherwise
  forks a child in \<^verbatim>\<open>execute\<close>. The model below follows the C text function by function.
  Strings are byte lists. What the C standard leaves undefined (a store outside the
  allocated argument array, \<^verbatim>\<open>strcmp\<close> on a null pointer, a read of an uninitialised
  cell) is a value of the type \<open>abort\<close>: the model stops there and names the cause.
  Allocation is assumed to succeed, and the calls to \<^verbatim>\<open>free\<close> are left out.
\<close>

subsection \<open>Characters and C strings\<close>

definition space :: char where
  "space = CHR '' ''"

definition newline :: char where
  "newline = CHR 0x0A"

definition NUL :: char where
  "NUL = CHR 0x00"

text \<open>A \<^verbatim>\<open>char *\<close> handed to a string function is read up to its first zero byte.\<close>

definition c_str :: "string \<Rightarrow> string" where
  "c_str buf = takeWhile (\<lambda>c. c \<noteq> NUL) buf"

subsection \<open>The argument array\<close>

text \<open>
  \<^verbatim>\<open>#define MAX_ARGS 128\<close>; \<^verbatim>\<open>char **args = malloc(MAX_ARGS * sizeof(char *))\<close>.
  A cell of the array is uninitialised memory, the null pointer, or a pointer to a
  string of its own (\<^verbatim>\<open>malloc\<close> and \<^verbatim>\<open>strcpy\<close> of the token).
\<close>

definition MAX_ARGS :: nat where
  "MAX_ARGS = 128"

datatype ptr = Garbage | NULL | Ptr string

datatype abort = OutOfBounds | NullDeref | UninitRead | WaitsForever

definition malloc_args :: "ptr list" where
  "malloc_args = replicate MAX_ARGS Garbage"

text \<open>\<^verbatim>\<open>args[i] = p\<close>: a store, undefined outside the allocation.\<close>

definition store :: "ptr list \<Rightarrow> nat \<Rightarrow> ptr \<Rightarrow> abort + ptr list" where
  "store args i p = (if i < length args then Inr (args[i := p]) else Inl OutOfBounds)"

text \<open>\<^verbatim>\<open>args[i]\<close>: a read, undefined outside the allocation and on an uninitialised cell.\<close>

definition load :: "ptr list \<Rightarrow> nat \<Rightarrow> abort + ptr" where
  "load args i =
     (if i < length args
      then (case args ! i of Garbage \<Rightarrow> Inl UninitRead | p \<Rightarrow> Inr p)
      else Inl OutOfBounds)"

text \<open>
  The strings of an argument vector, read the way \<^verbatim>\<open>execvp\<close> and the clean-up loop
  \<^verbatim>\<open>for (int i = 0; args[i] != NULL; i++)\<close> of \<^verbatim>\<open>main\<close> read it: from cell 0 up to the first
  cell that is not a string.
\<close>

fun argv :: "ptr list \<Rightarrow> string list" where
  "argv (Ptr s # ps) = s # argv ps"
| "argv _ = []"

subsection \<open>\<^verbatim>\<open>strtok\<close> with the delimiter set \<^verbatim>\<open>" "\<close>\<close>

text \<open>
  One call of \<^verbatim>\<open>strtok\<close> on the text still to be scanned: skip the leading delimiters;
  if nothing is left the result is the null pointer (\<open>None\<close>); otherwise the token runs to
  the next delimiter or to the end, and the scan resumes behind that delimiter.
  The result pairs the token with the text saved for the next call
  \<^verbatim>\<open>strtok(NULL, " ")\<close>.
\<close>

definition strtok :: "string \<Rightarrow> (string \<times> string) option" where
  "strtok s =
     (let s' = dropWhile (\<lambda>c. c = space) s
      in if s' = [] then None
         else Some (takeWhile (\<lambda>c. c \<noteq> space) s', drop 1 (dropWhile (\<lambda>c. c \<noteq> space) s')))"

lemma strtok_shorter: "strtok s = Some (t, r) \<Longrightarrow> length r < length s"
proof -
  assume a: "strtok s = Some (t, r)"
  let ?s' = "dropWhile (\<lambda>c. c = space) s"
  from a have ne: "?s' \<noteq> []" and r: "r = drop 1 (dropWhile (\<lambda>c. c \<noteq> space) ?s')"
    by (auto simp: strtok_def Let_def split: if_splits)
  from ne obtain c cs where cs: "?s' = c # cs" by (cases ?s') auto
  then have "c \<noteq> space" using hd_dropWhile [of "\<lambda>c. c = space" s] by auto
  moreover have "length (dropWhile (\<lambda>c. c \<noteq> space) cs) \<le> length cs"
    by (rule length_dropWhile_le)
  ultimately have "length r \<le> length cs" using r cs by simp
  moreover have "length ?s' \<le> length s" by (rule length_dropWhile_le)
  ultimately show ?thesis using cs by simp
qed

subsection \<open>\<^verbatim>\<open>parse\<close>\<close>

text \<open>
  The \<^verbatim>\<open>while (token != NULL)\<close> loop of \<^verbatim>\<open>parse\<close>. The loop state is the array, \<^verbatim>\<open>argCount\<close>
  and the current result of \<^verbatim>\<open>strtok\<close>. A token equal to \<^verbatim>\<open>"#"\<close> sets \<^verbatim>\<open>*background = 1\<close> and
  leaves the loop; any other token is stored at \<^verbatim>\<open>args[argCount]\<close>. Behind the loop,
  \<^verbatim>\<open>args[argCount] = NULL\<close>. Neither store is guarded by a comparison with
  \<^verbatim>\<open>MAX_ARGS\<close>.
\<close>

function parse_loop :: "ptr list \<Rightarrow> nat \<Rightarrow> (string \<times> string) option \<Rightarrow> abort + ptr list \<times> int" where
  "parse_loop args argCount token =
     (case token of
        None \<Rightarrow>
          (case store args argCount NULL of
             Inl e \<Rightarrow> Inl e
           | Inr args' \<Rightarrow> Inr (args', 0))
      | Some (tok, saved) \<Rightarrow>
          if tok = ''#''
          then (case store args argCount NULL of
                  Inl e \<Rightarrow> Inl e
                | Inr args' \<Rightarrow> Inr (args', 1))
          else (case store args argCount (Ptr tok) of
                  Inl e \<Rightarrow> Inl e
                | Inr args' \<Rightarrow> parse_loop args' (argCount + 1) (strtok saved)))"
  by pat_completeness auto
termination
  by (relation "measure (\<lambda>(args, argCount, token).
        case token of None \<Rightarrow> 0 | Some (tok, saved) \<Rightarrow> Suc (length saved))")
     (auto split: option.splits dest: strtok_shorter)

definition parse :: "string \<Rightarrow> abort + ptr list \<times> int" where
  "parse string = parse_loop malloc_args 0 (strtok string)"

text \<open>
  The tokens of a line: the results of the successive calls of \<^verbatim>\<open>strtok\<close> until it returns
  the null pointer. \<open>pending\<close> is the same sequence seen from inside the loop, where the
  current token has already been taken. \<open>kept\<close> are the tokens in front of the first
  token \<^verbatim>\<open>"#"\<close>.
\<close>

function tokens :: "string \<Rightarrow> string list" where
  "tokens s = (case strtok s of None \<Rightarrow> [] | Some (t, r) \<Rightarrow> t # tokens r)"
  by pat_completeness auto
termination
  by (relation "measure length") (auto dest: strtok_shorter)

definition pending :: "(string \<times> string) option \<Rightarrow> string list" where
  "pending token = (case token of None \<Rightarrow> [] | Some (t, r) \<Rightarrow> t # tokens r)"

definition kept :: "string \<Rightarrow> string list" where
  "kept s = takeWhile (\<lambda>t. t \<noteq> ''#'') (tokens s)"

subsection \<open>The operating system as seen by the interpreter\<close>

text \<open>
  The calls that leave the process are recorded in a trace. What they answer is not
  decided by the program, so it is a parameter: the value of \<^verbatim>\<open>HOME\<close> (\<open>None\<close> when the
  variable is unset, where \<^verbatim>\<open>getenv\<close> returns the null pointer), the outcome of \<^verbatim>\<open>chdir\<close>
  for a working directory and a path pointer (\<open>None\<close> when the call fails, which leaves
  the working directory as it was; otherwise the new working directory), and a tape of the outcomes of the calls of \<^verbatim>\<open>fork\<close> (an
  exhausted tape means that no further process can be created). The model follows
  the interpreter's own process: there \<^verbatim>\<open>fork\<close> fails or returns the identifier of the
  child, and the child's \<^verbatim>\<open>execvp\<close> is recorded at that point. A child that never ends
  blocks a foreground \<^verbatim>\<open>waitpid\<close> for ever.
\<close>

datatype fork_result = Fork_failed | Child int bool

datatype event =
    Printf_prompt
  | Getline "string option"
  | Perror string
  | Chdir "string option"
  | Fork
  | Execvp "string list"
  | Waitpid int
  | Printf_started int

record os =
  getenv_HOME :: "string option"
  chdir_result :: "string \<Rightarrow> string option \<Rightarrow> string option"

record world =
  cwd :: string
  forks :: "fork_result list"
  trace :: "event list"

definition emit :: "event \<Rightarrow> world \<Rightarrow> world" where
  "emit e w = w\<lparr>trace := trace w @ [e]\<rparr>"

subsection \<open>\<^verbatim>\<open>execute\<close>\<close>

definition execute :: "ptr list \<Rightarrow> int \<Rightarrow> world \<Rightarrow> abort + world" where
  "execute args background w =
     (case forks w of
        [] \<Rightarrow> Inr (emit (Perror ''fork'') (emit Fork w))
      | Fork_failed # tape \<Rightarrow> Inr (emit (Perror ''fork'') (emit Fork (w\<lparr>forks := tape\<rparr>)))
      | Child pid ends # tape \<Rightarrow>
          (let w' = emit (Execvp (argv args)) (emit Fork (w\<lparr>forks := tape\<rparr>))
           in if background = 0
              then (if ends then Inr (emit (Waitpid pid) w') else Inl WaitsForever)
              else Inr (emit (Printf_started pid) w')))"

subsection \<open>\<^verbatim>\<open>handle_builtin\<close>\<close>

text \<open>
  The result is the returned \<^verbatim>\<open>int\<close>, the value of \<^verbatim>\<open>*running\<close> afterwards, and the world.
  \<^verbatim>\<open>strcmp(args[0], ...)\<close> reads the string behind \<^verbatim>\<open>args[0]\<close>; \<^verbatim>\<open>args[1]\<close> is only compared
  with \<^verbatim>\<open>NULL\<close> and passed on.
\<close>

definition handle_builtin :: "os \<Rightarrow> ptr list \<Rightarrow> int \<Rightarrow> world \<Rightarrow> abort + int \<times> int \<times> world" where
  "handle_builtin sys args running w =
     (case load args 0 of
        Inl e \<Rightarrow> Inl e
      | Inr Garbage \<Rightarrow> Inl UninitRead
      | Inr NULL \<Rightarrow> Inl NullDeref
      | Inr (Ptr name) \<Rightarrow>
          if name = ''exit'' \<or> name = ''quit'' then Inr (1, 0, w)
          else if name = ''cd'' \<or> name = ''chdir'' then
            (case load args 1 of
               Inl e \<Rightarrow> Inl e
             | Inr a1 \<Rightarrow>
                 (let path = (case a1 of Ptr s \<Rightarrow> Some s | _ \<Rightarrow> getenv_HOME sys)
                  in case chdir_result sys (cwd w) path of
                       None \<Rightarrow> Inr (- 1, running, emit (Perror ''cd'') (emit (Chdir path) w))
                     | Some dir \<Rightarrow> Inr (1, running, emit (Chdir path) (w\<lparr>cwd := dir\<rparr>))))
          else Inr (0, running, w))"

subsection \<open>\<^verbatim>\<open>main\<close>\<close>

text \<open>
  Standard input is a byte string: the bytes that the interpreter's own calls of
  \<^verbatim>\<open>getline\<close> are given, in order. \<^verbatim>\<open>getline\<close> fails (\<open>None\<close>, the C result \<^verbatim>\<open>-1\<close>) when
  nothing is left; otherwise it returns the bytes up to and including the next
  newline, or all the remaining bytes when there is none.
\<close>

definition getline :: "string \<Rightarrow> (string \<times> string) option" where
  "getline inp =
     (if inp = [] then None
      else (case dropWhile (\<lambda>c. c \<noteq> newline) inp of
              [] \<Rightarrow> Some (inp, [])
            | c # rest \<Rightarrow> Some (takeWhile (\<lambda>c. c \<noteq> newline) inp @ [c], rest)))"

lemma getline_shorter: "getline inp = Some (cmd, rest) \<Longrightarrow> length rest < length inp"
proof -
  assume a: "getline inp = Some (cmd, rest)"
  have "length (dropWhile (\<lambda>c. c \<noteq> newline) inp) \<le> length inp"
    by (rule length_dropWhile_le)
  then show ?thesis using a
    by (auto simp: getline_def split: if_splits list.splits)
qed

text \<open>\<^verbatim>\<open>if (cmd[read-1] == '\n') cmd[read-1] = '\0';\<close>\<close>

definition chomp :: "string \<Rightarrow> string" where
  "chomp cmd = (if cmd \<noteq> [] \<and> last cmd = newline then butlast cmd else cmd)"

text \<open>
  The \<^verbatim>\<open>while (running)\<close> loop. The result is the exit status of the process, the world
  and the input not yet read. \<^verbatim>\<open>return 1\<close> is the failed read; the \<^verbatim>\<open>break\<close> after \<^verbatim>\<open>exit\<close> or
  \<^verbatim>\<open>quit\<close> and a false loop condition both reach the end of \<^verbatim>\<open>main\<close>, which is status 0.
\<close>

function main_loop :: "os \<Rightarrow> int \<Rightarrow> string \<Rightarrow> world \<Rightarrow> abort + int \<times> world \<times> string" where
  "main_loop sys running inp w =
     (if running = 0 then Inr (0, w, inp)
      else
        (case getline inp of
           None \<Rightarrow>
             Inr (1, emit (Perror ''getLine'') (emit (Getline None) (emit Printf_prompt w)), inp)
         | Some (cmd, rest) \<Rightarrow>
             (let w1 = emit (Getline (Some cmd)) (emit Printf_prompt w)
              in if take 1 cmd = [newline] then main_loop sys running rest w1
                 else
                   (case parse (c_str (chomp cmd)) of
                      Inl e \<Rightarrow> Inl e
                    | Inr (args, background) \<Rightarrow>
                        (case handle_builtin sys args running w1 of
                           Inl e \<Rightarrow> Inl e
                         | Inr (r, running', w2) \<Rightarrow>
                             if r \<noteq> 0
                             then (if running' = 0 then Inr (0, w2, rest)
                                   else main_loop sys running' rest w2)
                             else (case execute args background w2 of
                                     Inl e \<Rightarrow> Inl e
                                   | Inr w3 \<Rightarrow> main_loop sys running' rest w3))))))"
  by pat_completeness auto
termination
  by (relation "measure (\<lambda>(sys, running, inp, w). length inp)")
     (auto dest: getline_shorter)

definition main :: "os \<Rightarrow> string \<Rightarrow> world \<Rightarrow> abort + int \<times> world \<times> string" where
  "main sys inp w = main_loop sys 1 inp w"

subsection \<open>The Command of the specification\<close>

text \<open>
  The specification speaks of a Command: the sequence of argument strings and a
  boolean background flag. It is read off the result of \<^verbatim>\<open>parse\<close>: the strings of the
  array and whether \<^verbatim>\<open>*background\<close> is non-zero.
\<close>

definition command_of :: "ptr list \<times> int \<Rightarrow> string list \<times> bool" where
  "command_of r = (argv (fst r), snd r \<noteq> 0)"

definition parse_Command :: "string \<Rightarrow> abort + string list \<times> bool" where
  "parse_Command s = map_sum id command_of (parse s)"

text \<open>
  The words of the specification, for comparison with \<open>tokens\<close>: a line split on runs
  of separator characters, where consecutive separators produce no empty token;
  \<open>isspace\<close> is the whitespace of the C locale (space, tab, newline, vertical tab, form
  feed, carriage return); joining a token sequence with single spaces; and a line
  with no leading, trailing or repeated space.
\<close>

fun split_acc :: "(char \<Rightarrow> bool) \<Rightarrow> string \<Rightarrow> string \<Rightarrow> string list" where
  "split_acc sep word [] = (if word = [] then [] else [word])"
| "split_acc sep word (c # cs) =
     (if sep c then (if word = [] then split_acc sep [] cs else word # split_acc sep [] cs)
      else split_acc sep (word @ [c]) cs)"

definition split_on :: "(char \<Rightarrow> bool) \<Rightarrow> string \<Rightarrow> string list" where
  "split_on sep s = split_acc sep [] s"

definition isspace :: "char \<Rightarrow> bool" where
  "isspace c = (c \<in> {CHR '' '', CHR 0x09, CHR 0x0A, CHR 0x0B, CHR 0x0C, CHR 0x0D})"

fun join :: "string list \<Rightarrow> string" where
  "join [] = []"
| "join [t] = t"
| "join (t # u # ts) = t @ space # join (u # ts)"

fun no_repeat :: "string \<Rightarrow> bool" where
  "no_repeat (a # b # cs) = (\<not> (a = space \<and> b = space) \<and> no_repeat (b # cs))"
| "no_repeat _ = True"

definition tidy :: "string \<Rightarrow> bool" where
  "tidy s = (take 1 s \<noteq> [space] \<and> take 1 (rev s) \<noteq> [space] \<and> no_repeat s)"

subsection \<open>Notions used to state the properties\<close>

text \<open>
  A line read by \<^verbatim>\<open>getline\<close> issues \<^verbatim>\<open>exit\<close> or \<^verbatim>\<open>quit\<close> when the Command parsed from it has
  that first token. A run ended on a failed read when its last two calls are the
  failing \<^verbatim>\<open>getline\<close> and \<^verbatim>\<open>perror("getLine")\<close>; it ended on \<^verbatim>\<open>exit\<close> or \<^verbatim>\<open>quit\<close> when its last call
  is the \<^verbatim>\<open>getline\<close> that read such a line. The target of \<^verbatim>\<open>cd\<close> in the words of the
  specification: the second token when there is one, otherwise the value of \<^verbatim>\<open>HOME\<close>.
\<close>

definition issues_exit :: "string \<Rightarrow> bool" where
  "issues_exit cmd =
     (case parse_Command (c_str (chomp cmd)) of
        Inr (name # rest, bg) \<Rightarrow> name = ''exit'' \<or> name = ''quit''
      | _ \<Rightarrow> False)"

definition read_failed :: "world \<Rightarrow> bool" where
  "read_failed w = (take 2 (rev (trace w)) = [Perror ''getLine'', Getline None])"

definition exit_issued :: "world \<Rightarrow> bool" where
  "exit_issued w = (case rev (trace w) of Getline (Some cmd) # earlier \<Rightarrow> issues_exit cmd | _ \<Rightarrow> False)"

definition cd_target :: "os \<Rightarrow> string list \<Rightarrow> string option" where
  "cd_target sys rest = (case rest of [] \<Rightarrow> getenv_HOME sys | p # ps \<Rightarrow> Some p)"

text \<open>
  Concrete inputs: an environment in which \<^verbatim>\<open>/tmp\<close> and the home directory can be entered
  and nothing else, a world with two children to come, a line with a tab between two
  words, and a line of \<open>n\<close> one-letter arguments separated by single spaces.
\<close>

definition demo_os :: os where
  "demo_os = \<lparr>getenv_HOME = Some ''/home/me'',
              chdir_result = (\<lambda>dir path. if path = Some ''/tmp'' \<or> path = Some ''/home/me'' then path else None)\<rparr>"

definition demo_world :: world where
  "demo_world = \<lparr>cwd = ''/'', forks = [Child 4711 True, Child 4712 False], trace = []\<rparr>"

definition tab_line :: string where
  "tab_line = [CHR ''l'', CHR ''s'', CHR 0x09, CHR ''-'', CHR ''l'']"

definition many_args :: "nat \<Rightarrow> string" where
  "many_args n = join (replicate n ''a'')"

section \<open>Properties of the parser\<close>

declare tokens.simps [simp del]
declare parse_loop.simps [simp del]

lemma tokens_pending: "tokens s = pending (strtok s)"
  by (subst tokens.simps) (simp add: pending_def)

lemma argv_strings: "argv (map Ptr ks @ NULL # g) = ks"
  by (induction ks) auto

lemma split_acc_word:
  "split_acc sep w s =
     (if w @ takeWhile (\<lambda>c. \<not> sep c) s = [] then [] else [w @ takeWhile (\<lambda>c. \<not> sep c) s])
     @ split_acc sep [] (drop 1 (dropWhile (\<lambda>c. \<not> sep c) s))"
  by (induction s arbitrary: w) auto

lemma split_acc_skip: "split_acc sep [] s = split_acc sep [] (dropWhile sep s)"
  by (induction s) auto

lemma tokens_split: "tokens s = split_on (\<lambda>c. c = space) s"
proof (induction s rule: tokens.induct)
  case (1 s)
  let ?s' = "dropWhile (\<lambda>c. c = space) s"
  show ?case
  proof (cases "strtok s")
    case None
    then have e: "?s' = []" by (auto simp: strtok_def Let_def split: if_splits)
    have "split_on (\<lambda>c. c = space) s = split_acc (\<lambda>c. c = space) [] ?s'"
      unfolding split_on_def by (rule split_acc_skip)
    also have "\<dots> = []" unfolding e by simp
    finally show ?thesis using None by (subst tokens.simps) simp
  next
    case (Some p)
    obtain t r where p: "p = (t, r)" by (cases p)
    from Some p have ne: "?s' \<noteq> []" and t: "t = takeWhile (\<lambda>c. c \<noteq> space) ?s'"
      and r: "r = drop 1 (dropWhile (\<lambda>c. c \<noteq> space) ?s')"
      by (auto simp: strtok_def Let_def split: if_splits)
    from ne have "hd ?s' \<noteq> space" using hd_dropWhile [of "\<lambda>c. c = space" s] by simp
    with ne have tne: "t \<noteq> []" unfolding t by (cases ?s') auto
    have "split_on (\<lambda>c. c = space) s = split_acc (\<lambda>c. c = space) [] ?s'"
      unfolding split_on_def by (rule split_acc_skip)
    also have "\<dots> = t # split_acc (\<lambda>c. c = space) [] r"
      using tne by (subst split_acc_word) (simp add: t r)
    also have "\<dots> = t # tokens r"
      using 1 [OF Some p [symmetric]] by (simp add: split_on_def)
    finally show ?thesis using Some p by (subst tokens.simps) simp
  qed
qed

lemma parse_loop_shape:
  "parse_loop args n token =
     (let ks = takeWhile (\<lambda>t. t \<noteq> ''#'') (pending token)
      in if n + length ks < length args
         then Inr (take n args @ map Ptr ks @ NULL # drop (Suc (n + length ks)) args,
                   if ''#'' \<in> set (pending token) then 1 else 0)
         else Inl OutOfBounds)"
proof (induction args n token rule: parse_loop.induct)
  case (1 args argCount token)
  show ?case
  proof (cases token)
    case None
    then show ?thesis
      by (subst parse_loop.simps) (simp add: pending_def store_def upd_conv_take_nth_drop)
  next
    case (Some p)
    obtain tok saved where p: "p = (tok, saved)" by (cases p)
    show ?thesis
    proof (cases "tok = ''#''")
      case True
      then show ?thesis using Some p
        by (subst parse_loop.simps) (simp add: pending_def store_def upd_conv_take_nth_drop)
    next
      case False
      show ?thesis
      proof (cases "argCount < length args")
        case True
        have st: "store args argCount (Ptr tok) = Inr (args[argCount := Ptr tok])"
          using True by (simp add: store_def)
        note IH = 1 [OF Some p [symmetric] False st]
        have pd: "pending token = tok # pending (strtok saved)"
          using Some p by (simp add: pending_def tokens_pending)
        have "parse_loop args argCount token =
                parse_loop (args[argCount := Ptr tok]) (argCount + 1) (strtok saved)"
          using Some p False by (subst parse_loop.simps) (simp add: st)
        also note IH
        also have "take (argCount + 1) (args[argCount := Ptr tok]) = take argCount args @ [Ptr tok]"
          using True by (simp add: take_Suc_conv_app_nth)
        finally show ?thesis using False True
          by (simp add: pd Let_def)
      next
        case F2: False
        then show ?thesis using Some p False
          by (subst parse_loop.simps) (simp add: pending_def store_def)
      qed
    qed
  qed
qed

lemma parse_closed:
  "parse s =
     (if length (kept s) < MAX_ARGS
      then Inr (map Ptr (kept s) @ NULL # replicate (MAX_ARGS - Suc (length (kept s))) Garbage,
                if ''#'' \<in> set (tokens s) then 1 else 0)
      else Inl OutOfBounds)"
  by (simp add: parse_def parse_loop_shape malloc_args_def kept_def Let_def
      tokens_pending [symmetric])

lemma parse_Command_closed:
  "parse_Command s =
     (if length (kept s) < MAX_ARGS then Inr (kept s, ''#'' \<in> set (tokens s))
      else Inl OutOfBounds)"
  by (simp add: parse_Command_def parse_closed command_of_def argv_strings)

lemma tokens_Nil [simp]: "tokens [] = []"
  by (subst tokens.simps) (simp add: strtok_def)

lemma no_repeat_tl: "no_repeat (x # ys) \<Longrightarrow> no_repeat ys"
  by (cases ys) auto

lemma no_repeat_append: "no_repeat (xs @ ys) \<Longrightarrow> no_repeat ys"
  by (induction xs) (auto dest: no_repeat_tl)

lemma join_tokens:
  "take 1 s \<noteq> [space] \<Longrightarrow> take 1 (rev s) \<noteq> [space] \<Longrightarrow> no_repeat s \<Longrightarrow> join (tokens s) = s"
proof (induction s rule: tokens.induct)
  case (1 s)
  show ?case
  proof (cases "s = []")
    case True
    then show ?thesis by simp
  next
    case ne: False
    with "1.prems"(1) have c: "hd s \<noteq> space" by (cases s) auto
    define t where "t = takeWhile (\<lambda>c. c \<noteq> space) s"
    define d where "d = dropWhile (\<lambda>c. c \<noteq> space) s"
    have sk: "dropWhile (\<lambda>c. c = space) s = s" using ne c by (cases s) auto
    have tk: "strtok s = Some (t, drop 1 d)"
      by (simp add: strtok_def sk Let_def ne t_def d_def)
    have split: "s = t @ d" by (simp add: t_def d_def)
    have tne: "t \<noteq> []" using ne c unfolding t_def by (cases s) auto
    show ?thesis
    proof (cases d)
      case Nil
      have "strtok s = Some (t, [])" using tk unfolding Nil by simp
      then have "tokens s = [t]" by (subst tokens.simps) simp
      moreover from Nil split have "t = s" by simp
      ultimately show ?thesis by simp
    next
      case (Cons x r)
      have "d \<noteq> [] \<Longrightarrow> hd d = space"
        unfolding d_def using hd_dropWhile [of "\<lambda>c. c \<noteq> space" s] by blast
      then have x: "x = space" using Cons by simp
      have s: "s = t @ space # r" using split Cons x by simp
      have rne: "r \<noteq> []"
      proof
        assume "r = []"
        then have "rev s = space # rev t" using s by simp
        then show False using "1.prems"(2) by simp
      qed
      have nr: "no_repeat (space # r)"
        using "1.prems"(3) s no_repeat_append [of t "space # r"] by simp
      have r1: "take 1 r \<noteq> [space]" using nr rne by (cases r) auto
      have "rev s = rev r @ space # rev t" using s by simp
      then have r2: "take 1 (rev r) \<noteq> [space]" using "1.prems"(2) rne by (cases "rev r") auto
      have r3: "no_repeat r" using nr rne by (cases r) auto
      have tk2: "strtok s = Some (t, r)" using tk unfolding Cons by simp
      have "join (tokens r) = r"
        using "1.IH" [OF tk2 refl] r1 r2 r3 by simp
      moreover from this rne have "tokens r \<noteq> []" by auto
      moreover have "tokens s = t # tokens r" by (subst tokens.simps) (simp add: tk2)
      ultimately have "join (tokens s) = t @ space # r" by (cases "tokens r") auto
      then show ?thesis using s by simp
    qed
  qed
qed

section \<open>Properties of the builtins and of the read loop\<close>

declare main_loop.simps [simp del]

lemma parsed_args:
  assumes "parse s = Inr (args, bg)"
  shows "length (kept s) < MAX_ARGS"
    and "args = map Ptr (kept s) @ NULL # replicate (MAX_ARGS - Suc (length (kept s))) Garbage"
    and "bg = (if ''#'' \<in> set (tokens s) then 1 else 0)"
  using assms by (auto simp: parse_closed split: if_splits)

lemma parsed_argv: "parse s = Inr (args, bg) \<Longrightarrow> argv args = kept s"
  by (auto simp: parse_closed argv_strings split: if_splits)

lemma parsed_load0:
  assumes "parse s = Inr (args, bg)" and "argv args = name # rest"
  shows "load args 0 = Inr (Ptr name)"
proof -
  have k: "kept s = name # rest" using assms by (simp add: parsed_argv)
  show ?thesis
    by (subst parsed_args(2) [OF assms(1)]) (simp add: load_def k)
qed

lemma parsed_load1:
  assumes "parse s = Inr (args, bg)" and "argv args = name # rest"
  shows "load args 1 = Inr (case rest of [] \<Rightarrow> NULL | p # ps \<Rightarrow> Ptr p)"
proof -
  have k: "kept s = name # rest" using assms by (simp add: parsed_argv)
  have "length (kept s) < MAX_ARGS" using assms(1) by (rule parsed_args(1))
  then have "Suc (length rest) < MAX_ARGS" by (simp add: k)
  then show ?thesis
    by (subst parsed_args(2) [OF assms(1)])
       (cases rest; simp add: load_def k MAX_ARGS_def nth_Cons split: nat.splits)
qed

lemma parsed_load0_empty:
  assumes "parse s = Inr (args, bg)" and "argv args = []"
  shows "load args 0 = Inr NULL"
proof -
  have k: "kept s = []" using assms by (simp add: parsed_argv)
  show ?thesis
    by (subst parsed_args(2) [OF assms(1)]) (simp add: load_def k)
qed

lemma handle_builtin_exit:
  "load args 0 = Inr (Ptr name) \<Longrightarrow> name = ''exit'' \<or> name = ''quit'' \<Longrightarrow>
   handle_builtin sys args running w = Inr (1, 0, w)"
  by (auto simp: handle_builtin_def)

lemma handle_builtin_cd:
  "load args 0 = Inr (Ptr name) \<Longrightarrow> name = ''cd'' \<or> name = ''chdir'' \<Longrightarrow> load args 1 = Inr a1 \<Longrightarrow>
   handle_builtin sys args running w =
     (let path = (case a1 of Ptr s \<Rightarrow> Some s | _ \<Rightarrow> getenv_HOME sys)
      in case chdir_result sys (cwd w) path of
           None \<Rightarrow> Inr (- 1, running, emit (Perror ''cd'') (emit (Chdir path) w))
         | Some dir \<Rightarrow> Inr (1, running, emit (Chdir path) (w\<lparr>cwd := dir\<rparr>)))"
  by (auto simp: handle_builtin_def)

lemma handle_builtin_other:
  "handle_builtin sys args running w = Inr (0, running', w') \<Longrightarrow> running' = running \<and> w' = w"
  by (auto simp: handle_builtin_def Let_def split: sum.splits ptr.splits if_splits option.splits)

lemma getline_only_newline:
  assumes "getline inp = Some (cmd, unread)" and "take 1 cmd = [newline]"
  shows "cmd = [newline]"
proof (cases "dropWhile (\<lambda>c. c \<noteq> newline) inp")
  case Nil
  then have "\<forall>c \<in> set inp. c \<noteq> newline" by (simp add: dropWhile_eq_Nil_conv)
  moreover from assms(1) have "cmd = inp" and "inp \<noteq> []"
    unfolding getline_def Nil by (auto split: if_splits)
  ultimately show ?thesis using assms(2) by (cases inp) auto
next
  case (Cons c rest)
  then have c: "c = newline" using hd_dropWhile [of "\<lambda>c. c \<noteq> newline" inp] by auto
  from assms(1) have cmd: "cmd = takeWhile (\<lambda>c. c \<noteq> newline) inp @ [c]"
    unfolding getline_def Cons by (auto split: if_splits)
  show ?thesis
  proof (cases "takeWhile (\<lambda>c. c \<noteq> newline) inp")
    case Nil
    then show ?thesis using cmd c by simp
  next
    case t: (Cons x xs)
    then have "x \<in> set (takeWhile (\<lambda>c. c \<noteq> newline) inp)" by simp
    then have "x \<noteq> newline" by (auto dest: set_takeWhileD)
    then show ?thesis using assms(2) cmd t by simp
  qed
qed

lemma main_loop_step:
  assumes "getline inp = Some (cmd, unread)" and "take 1 cmd \<noteq> [newline]"
    and "parse (c_str (chomp cmd)) = Inr (args, bg)"
    and "handle_builtin sys args 1 (emit (Getline (Some cmd)) (emit Printf_prompt w)) = Inr (r, running', w2)"
  shows "main_loop sys 1 inp w =
           (if r \<noteq> 0
            then (if running' = 0 then Inr (0, w2, unread) else main_loop sys running' unread w2)
            else (case execute args bg w2 of
                    Inl e \<Rightarrow> Inl e
                  | Inr w3 \<Rightarrow> main_loop sys running' unread w3))"
  using assms by (subst main_loop.simps) (simp add: Let_def)

lemma trace_emit [simp]: "trace (emit e w) = trace w @ [e]"
  and forks_emit [simp]: "forks (emit e w) = forks w"
  and cwd_emit [simp]: "cwd (emit e w) = cwd w"
  by (simp_all add: emit_def)

lemma handle_builtin_cleared:
  assumes "handle_builtin sys args running w = Inr (r, 0, w')" and "running \<noteq> 0"
  shows "w' = w \<and> (\<exists>name. load args 0 = Inr (Ptr name) \<and> (name = ''exit'' \<or> name = ''quit''))"
  using assms
  by (auto simp: handle_builtin_def Let_def split: sum.splits ptr.splits if_splits option.splits)

lemma parsed_load0_name:
  assumes "parse s = Inr (args, bg)" and "load args 0 = Inr (Ptr name)"
  shows "\<exists>rest. kept s = name # rest"
proof (cases "kept s")
  case Nil
  then have "argv args = []" using assms(1) by (simp add: parsed_argv)
  with assms(1) have "load args 0 = Inr NULL" by (rule parsed_load0_empty)
  with assms(2) show ?thesis by simp
next
  case (Cons n rest)
  then have "argv args = n # rest" using assms(1) by (simp add: parsed_argv)
  with assms(1) have "load args 0 = Inr (Ptr n)" by (rule parsed_load0)
  with assms(2) Cons show ?thesis by simp
qed

lemma issues_exit_kept:
  assumes "parse (c_str (chomp cmd)) = Inr (args, bg)" and "kept (c_str (chomp cmd)) = name # rest"
    and "name = ''exit'' \<or> name = ''quit''"
  shows "issues_exit cmd"
proof -
  have "length (kept (c_str (chomp cmd))) < MAX_ARGS" using assms(1) by (rule parsed_args(1))
  then show ?thesis using assms(2,3)
    by (auto simp: issues_exit_def parse_Command_closed)
qed

lemma main_loop_status:
  "running \<noteq> 0 \<Longrightarrow> main_loop sys running inp w = Inr (st, w', unread) \<Longrightarrow>
   (st = 1 \<and> unread = [] \<and> read_failed w' \<and> \<not> exit_issued w')
   \<or> (st = 0 \<and> exit_issued w' \<and> \<not> read_failed w')"
proof (induction sys running inp w arbitrary: st w' unread rule: main_loop.induct)
  case (1 sys running inp w)
  note run = "1.prems"(1) and res = "1.prems"(2)
  let ?w1 = "\<lambda>cmd. emit (Getline (Some cmd)) (emit Printf_prompt w)"
  show ?case
  proof (cases "getline inp")
    case None
    then have "inp = []" by (auto simp: getline_def split: if_splits list.splits)
    moreover from None run res have "st = 1"
      and "w' = emit (Perror ''getLine'') (emit (Getline None) (emit Printf_prompt w))"
      and "unread = inp"
      by (subst (asm) main_loop.simps, simp)+
    ultimately show ?thesis by (simp add: read_failed_def exit_issued_def emit_def)
  next
    case (Some p)
    obtain cmd rest where p: "p = (cmd, rest)" by (cases p)
    note gl = Some [unfolded p]
    show ?thesis
    proof (cases "take 1 cmd = [newline]")
      case True
      have "main_loop sys running inp w = main_loop sys running rest (?w1 cmd)"
        using run gl True by (subst main_loop.simps) (simp add: Let_def)
      with res have "main_loop sys running rest (?w1 cmd) = Inr (st, w', unread)" by simp
      from "1.IH"(1) [OF run gl refl refl True run this] show ?thesis .
    next
      case nl: False
      show ?thesis
      proof (cases "parse (c_str (chomp cmd))")
        case (Inl e)
        have "main_loop sys running inp w = Inl e"
          using run gl nl Inl by (subst main_loop.simps) (simp add: Let_def)
        with res show ?thesis by simp
      next
        case (Inr b)
        obtain args bg where b: "b = (args, bg)" by (cases b)
        note pr = Inr [unfolded b]
        show ?thesis
        proof (cases "handle_builtin sys args running (?w1 cmd)")
          case (Inl e)
          have "main_loop sys running inp w = Inl e"
            using run gl nl pr Inl by (subst main_loop.simps) (simp add: Let_def)
          with res show ?thesis by simp
        next
          case hb0: (Inr t)
          obtain r running' w2 where t: "t = (r, running', w2)" by (cases t)
          note hb = hb0 [unfolded t]
          have step: "main_loop sys running inp w =
              (if r \<noteq> 0
               then (if running' = 0 then Inr (0, w2, rest) else main_loop sys running' rest w2)
               else (case execute args bg w2 of
                       Inl e \<Rightarrow> Inl e
                     | Inr w3 \<Rightarrow> main_loop sys running' rest w3))"
            using run gl nl pr hb by (subst main_loop.simps) (simp add: Let_def)
          show ?thesis
          proof (cases "r \<noteq> 0")
            case r: True
            show ?thesis
            proof (cases "running' = 0")
              case True
              with step r res have st: "st = 0" and w': "w' = w2" by simp_all
              from handle_builtin_cleared [OF hb [unfolded True] run]
              obtain name where w2: "w2 = ?w1 cmd" and l0: "load args 0 = Inr (Ptr name)"
                and nm: "name = ''exit'' \<or> name = ''quit''" by blast
              from parsed_load0_name [OF pr l0] obtain more where
                "kept (c_str (chomp cmd)) = name # more" by blast
              with pr have "issues_exit cmd" using nm by (rule issues_exit_kept)
              then show ?thesis using st w' w2
                by (simp add: exit_issued_def read_failed_def emit_def)
            next
              case False
              with step r res have "main_loop sys running' rest w2 = Inr (st, w', unread)" by simp
              from "1.IH"(2) [OF run gl refl refl nl pr refl hb refl refl r False False this]
              show ?thesis .
            qed
          next
            case r: False
            then have r0: "r = 0" by simp
            from handle_builtin_other [OF hb [unfolded r0]] have same: "running' = running" by simp
            show ?thesis
            proof (cases "execute args bg w2")
              case (Inl e)
              with step r res show ?thesis by simp
            next
              case (Inr w3)
              with step r res have "main_loop sys running' rest w3 = Inr (st, w', unread)" by simp
              from "1.IH"(3) [OF run gl refl refl nl pr refl hb refl refl r Inr _ this] same run
              show ?thesis by simp
            qed
          qed
        qed
      qed
    qed
  qed
qed

lemma parsed_first_not_newline:
  assumes "getline inp = Some (cmd, unread)" and "parse (c_str (chomp cmd)) = Inr (args, bg)"
    and "argv args = name # rest"
  shows "take 1 cmd \<noteq> [newline]"
proof
  assume "take 1 cmd = [newline]"
  with assms(1) have "cmd = [newline]" by (rule getline_only_newline)
  then have "c_str (chomp cmd) = []" by (simp add: chomp_def c_str_def)
  then have "kept (c_str (chomp cmd)) = []" by (simp add: kept_def)
  then show False using assms(2,3) by (simp add: parsed_argv)
qed

lemma cd_path:
  "(case (case rest of [] \<Rightarrow> NULL | p # ps \<Rightarrow> Ptr p) of Ptr s \<Rightarrow> Some s | _ \<Rightarrow> getenv_HOME sys)
     = cd_target sys rest"
  by (cases rest) (auto simp: cd_target_def)


lemma parse_marker:
  assumes "tokens s = front @ ''#'' # back" and "''#'' \<notin> set front" and "length front \<le> 127"
  shows "parse_Command s = Inr (front, True)"
proof -
  have "\<And>t. t \<in> set front \<Longrightarrow> t \<noteq> ''#''" using assms(2) by auto
  then have "takeWhile (\<lambda>t. t \<noteq> ''#'') (front @ ''#'' # back) = front @ takeWhile (\<lambda>t. t \<noteq> ''#'') (''#'' # back)"
    by (rule takeWhile_append2)
  then have "kept s = front" using assms(1) by (simp add: kept_def)
  then show ?thesis using assms by (simp add: parse_Command_closed MAX_ARGS_def)
qed

lemma parse_roundtrip:
  assumes "tidy s" and "''#'' \<notin> set (tokens s)" and "length (tokens s) \<le> 127"
  shows "map_sum id (\<lambda>c. join (fst c)) (parse_Command s) = Inr s"
proof -
  have "kept s = tokens s" using assms(2) unfolding kept_def
    by (simp add: takeWhile_eq_all_conv) metis
  moreover have "join (tokens s) = s" using assms(1) by (simp add: tidy_def join_tokens)
  ultimately show ?thesis using assms(3) by (simp add: parse_Command_closed MAX_ARGS_def)
qed

lemma main_loop_abort:
  assumes "getline inp = Some (cmd, unread)" and "take 1 cmd \<noteq> [newline]"
    and "parse (c_str (chomp cmd)) = Inr (args, bg)"
    and "handle_builtin sys args 1 (emit (Getline (Some cmd)) (emit Printf_prompt w)) = Inl e"
  shows "main_loop sys 1 inp w = Inl e"
  using assms by (subst main_loop.simps) (simp add: Let_def)

lemma handle_builtin_clears_iff:
  "(\<exists>r v. handle_builtin sys (Ptr n # others) 1 w = Inr (r, 0, v)) \<longleftrightarrow> n = ''exit'' \<or> n = ''quit''"
proof
  assume "\<exists>r v. handle_builtin sys (Ptr n # others) 1 w = Inr (r, 0, v)"
  then obtain r v where "handle_builtin sys (Ptr n # others) 1 w = Inr (r, 0, v)" by blast
  from handle_builtin_cleared [OF this] show "n = ''exit'' \<or> n = ''quit''"
    by (simp add: load_def)
next
  assume "n = ''exit'' \<or> n = ''quit''"
  moreover have "load (Ptr n # others) 0 = Inr (Ptr n)" by (simp add: load_def)
  ultimately have "handle_builtin sys (Ptr n # others) 1 w = Inr (1, 0, w)"
    by (simp add: handle_builtin_exit)
  then show "\<exists>r v. handle_builtin sys (Ptr n # others) 1 w = Inr (r, 0, v)" by blast
qed

lemma handle_builtin_other_name:
  assumes "load args 0 = Inr (Ptr name)"
    and "\<not> (name = ''exit'' \<or> name = ''quit'')"
    and "\<not> (name = ''cd'' \<or> name = ''chdir'')"
  shows "handle_builtin sys args running w = Inr (0, running, w)"
  using assms by (simp add: handle_builtin_def)

section \<open>The claims\<close>

text \<open>
  C1 (the code departs from the claim). The claim: the argument sequence handed to the
  Builtin Dispatcher is never empty, so a line of blanks or a line holding only the
  background marker never makes the Dispatcher inspect a first token that does not
  exist. On the code: such a line is parsed to the empty Command, \<^verbatim>\<open>main\<close> guards only the
  line that starts with the newline, and \<^verbatim>\<open>handle_builtin\<close> applies \<^verbatim>\<open>strcmp\<close> to the null
  pointer in \<^verbatim>\<open>args[0]\<close>.
\<close>

theorem blank_line_reaches_dispatcher:
  "parse_Command '' '' = Inr ([], False)
   \<and> parse_Command ''#'' = Inr ([], True)
   \<and> main sys ('' '' @ newline # unread) w = Inl NullDeref
   \<and> main sys (''#'' @ newline # unread) w = Inl NullDeref"
proof -
  have c1: "parse_Command '' '' = Inr ([], False)" by code_simp
  have c2: "parse_Command ''#'' = Inr ([], True)" by code_simp
  have g1: "getline ('' '' @ newline # unread) = Some ('' '' @ [newline], unread)"
    by (simp add: getline_def newline_def)
  have g2: "getline (''#'' @ newline # unread) = Some (''#'' @ [newline], unread)"
    by (simp add: getline_def newline_def)
  have n1: "take 1 ('' '' @ [newline]) \<noteq> [newline]" by (simp add: newline_def)
  have n2: "take 1 (''#'' @ [newline]) \<noteq> [newline]" by (simp add: newline_def)
  have p1: "parse (c_str (chomp ('' '' @ [newline]))) = Inr (NULL # replicate 127 Garbage, 0)"
    by code_simp
  have p2: "parse (c_str (chomp (''#'' @ [newline]))) = Inr (NULL # replicate 127 Garbage, 1)"
    by code_simp
  have h: "handle_builtin sys (NULL # replicate 127 Garbage) 1 v = Inl NullDeref" for v
    by (simp add: handle_builtin_def load_def)
  have m1: "main sys ('' '' @ newline # unread) w = Inl NullDeref"
    unfolding main_def using g1 n1 p1 h by (rule main_loop_abort)
  have m2: "main sys (''#'' @ newline # unread) w = Inl NullDeref"
    unfolding main_def using g2 n2 p2 h by (rule main_loop_abort)
  from c1 c2 m1 m2 show ?thesis by simp
qed

text \<open>
  C2 (the code departs from the claim). The claim: when the first token equal to the
  background marker is the \<open>k\<close>-th token, \<^verbatim>\<open>parse\<close> returns the first \<open>k - 1\<close> tokens with
  the background flag set, whatever follows. Lemma \<open>parse_marker\<close> proves this for
  \<open>k - 1 \<le> 127\<close>. On a line of 128 arguments followed by the marker, the store of the
  terminating null pointer falls outside the array of \<^verbatim>\<open>MAX_ARGS\<close> cells.
\<close>

theorem marker_behind_128_tokens:
  "tokens (many_args 128 @ '' #'') = replicate 128 ''a'' @ [''#'']
   \<and> parse_Command (many_args 128 @ '' #'') = Inl OutOfBounds"
  by code_simp

text \<open>
  C3 (corrected). The claim as written, with the line split on runs of whitespace,
  fails on a line with a tab: \<^verbatim>\<open>strtok\<close> is called with the delimiter set \<^verbatim>\<open>" "\<close>, so the tab
  stays inside the token.
\<close>

theorem whitespace_split_counterexample:
  "\<not> (''#'' \<notin> set (split_on isspace tab_line) \<longrightarrow>
      parse_Command tab_line = Inr (split_on isspace tab_line, False))
   \<and> split_on isspace tab_line = [''ls'', ''-l'']
   \<and> parse_Command tab_line = Inr ([tab_line], False)"
  by code_simp

text \<open>
  C3 as amended: for every line that, split on runs of the space character alone,
  has no token equal to the background marker and at most 127 tokens, \<^verbatim>\<open>parse\<close> returns
  a Command whose background flag is false and whose token sequence is, in order,
  that split; consecutive spaces produce no empty token.
\<close>

theorem parse_splits_on_spaces:
  assumes "''#'' \<notin> set (split_on (\<lambda>c. c = space) s)"
    and "length (split_on (\<lambda>c. c = space) s) \<le> 127"
  shows "parse_Command s = Inr (split_on (\<lambda>c. c = space) s, False)"
proof -
  have t: "tokens s = split_on (\<lambda>c. c = space) s" by (rule tokens_split)
  have "kept s = tokens s" using assms(1) unfolding kept_def t
    by (simp add: takeWhile_eq_all_conv) metis
  then show ?thesis using assms by (simp add: parse_Command_closed t [symmetric] MAX_ARGS_def)
qed

theorem parse_splits_on_spaces_witness:
  "''#'' \<notin> set (split_on (\<lambda>c. c = space) ''  ls   -l /tmp '')
   \<and> length (split_on (\<lambda>c. c = space) ''  ls   -l /tmp '') \<le> 127
   \<and> parse_Command ''  ls   -l /tmp '' = Inr ([''ls'', ''-l'', ''/tmp''], False)"
proof -
  have s: "split_on (\<lambda>c. c = space) ''  ls   -l /tmp '' = [''ls'', ''-l'', ''/tmp'']"
    by code_simp
  have h1: "''#'' \<notin> set (split_on (\<lambda>c. c = space) ''  ls   -l /tmp '')"
    unfolding s by simp
  have h2: "length (split_on (\<lambda>c. c = space) ''  ls   -l /tmp '') \<le> 127"
    unfolding s by simp
  from parse_splits_on_spaces [OF h1 h2] h1 h2 show ?thesis unfolding s by simp
qed

text \<open>
  C4. For a Command read from a line whose first token is \<^verbatim>\<open>cd\<close> or \<^verbatim>\<open>chdir\<close>, the path
  handed to \<^verbatim>\<open>chdir\<close> is the second token when there is one and the value of \<^verbatim>\<open>HOME\<close>
  otherwise. When \<^verbatim>\<open>chdir\<close> fails the Dispatcher returns \<^verbatim>\<open>-1\<close>, the working directory and the
  running flag are as before, and the read loop goes on with the next line; when it
  succeeds the Dispatcher returns \<^verbatim>\<open>1\<close>.
\<close>

theorem cd_builtin:
  assumes "getline inp = Some (cmd, unread)"
    and "parse (c_str (chomp cmd)) = Inr (args, bg)"
    and "argv args = name # rest"
    and "name = ''cd'' \<or> name = ''chdir''"
  shows "handle_builtin sys args running w =
           (case chdir_result sys (cwd w) (cd_target sys rest) of
              None \<Rightarrow>
                Inr (- 1, running, w\<lparr>trace := trace w @ [Chdir (cd_target sys rest), Perror ''cd'']\<rparr>)
            | Some dir \<Rightarrow>
                Inr (1, running, w\<lparr>cwd := dir, trace := trace w @ [Chdir (cd_target sys rest)]\<rparr>))
         \<and> main_loop sys 1 inp w =
             main_loop sys 1 unread
               (case chdir_result sys (cwd w) (cd_target sys rest) of
                  None \<Rightarrow>
                    w\<lparr>trace := trace w @
                       [Printf_prompt, Getline (Some cmd), Chdir (cd_target sys rest), Perror ''cd'']\<rparr>
                | Some dir \<Rightarrow>
                    w\<lparr>cwd := dir, trace := trace w @
                       [Printf_prompt, Getline (Some cmd), Chdir (cd_target sys rest)]\<rparr>)"
proof -
  let ?path = "cd_target sys rest"
  have l0: "load args 0 = Inr (Ptr name)" using assms(2,3) by (rule parsed_load0)
  have l1: "load args 1 = Inr (case rest of [] \<Rightarrow> NULL | p # ps \<Rightarrow> Ptr p)"
    using assms(2,3) by (rule parsed_load1)
  have hb: "handle_builtin sys args running w =
        (case chdir_result sys (cwd w) ?path of
           None \<Rightarrow> Inr (- 1, running, w\<lparr>trace := trace w @ [Chdir ?path, Perror ''cd'']\<rparr>)
         | Some dir \<Rightarrow> Inr (1, running, w\<lparr>cwd := dir, trace := trace w @ [Chdir ?path]\<rparr>))"
    for running w
    by (simp add: handle_builtin_cd [OF l0 assms(4) l1] cd_path Let_def emit_def split: option.splits)
  have nn: "take 1 cmd \<noteq> [newline]" using assms(1,2,3) by (rule parsed_first_not_newline)
  let ?w1 = "emit (Getline (Some cmd)) (emit Printf_prompt w)"
  have c1: "cwd ?w1 = cwd w" by (simp add: emit_def)
  have "main_loop sys 1 inp w =
          main_loop sys 1 unread
            (case chdir_result sys (cwd w) ?path of
               None \<Rightarrow> w\<lparr>trace := trace w @ [Printf_prompt, Getline (Some cmd), Chdir ?path, Perror ''cd'']\<rparr>
             | Some dir \<Rightarrow> w\<lparr>cwd := dir, trace := trace w @ [Printf_prompt, Getline (Some cmd), Chdir ?path]\<rparr>)"
  proof (cases "chdir_result sys (cwd w) ?path")
    case None
    then have "handle_builtin sys args 1 ?w1 =
        Inr (- 1, 1, ?w1\<lparr>trace := trace ?w1 @ [Chdir ?path, Perror ''cd'']\<rparr>)"
      by (simp add: hb c1)
    from main_loop_step [OF assms(1) nn assms(2) this] None show ?thesis
      by (simp add: emit_def)
  next
    case (Some dir)
    then have "handle_builtin sys args 1 ?w1 =
        Inr (1, 1, ?w1\<lparr>cwd := dir, trace := trace ?w1 @ [Chdir ?path]\<rparr>)"
      by (simp add: hb c1)
    from main_loop_step [OF assms(1) nn assms(2) this] Some show ?thesis
      by (simp add: emit_def)
  qed
  with hb show ?thesis by blast
qed

theorem cd_builtin_witness:
  "getline (''cd /nowhere'' @ newline # ''exit'') = Some (''cd /nowhere'' @ [newline], ''exit'')
   \<and> parse (c_str (chomp (''cd /nowhere'' @ [newline])))
       = Inr (Ptr ''cd'' # Ptr ''/nowhere'' # NULL # replicate 125 Garbage, 0)
   \<and> argv (Ptr ''cd'' # Ptr ''/nowhere'' # NULL # replicate 125 Garbage) = [''cd'', ''/nowhere'']
   \<and> handle_builtin demo_os (Ptr ''cd'' # Ptr ''/nowhere'' # NULL # replicate 125 Garbage) 1 demo_world
       = Inr (- 1, 1, demo_world\<lparr>trace := [Chdir (Some ''/nowhere''), Perror ''cd'']\<rparr>)
   \<and> main_loop demo_os 1 (''cd /nowhere'' @ newline # ''exit'') demo_world
       = main_loop demo_os 1 ''exit''
           (demo_world\<lparr>trace := [Printf_prompt, Getline (Some (''cd /nowhere'' @ [newline])),
                                   Chdir (Some ''/nowhere''), Perror ''cd'']\<rparr>)"
proof -
  have h1: "getline (''cd /nowhere'' @ newline # ''exit'') = Some (''cd /nowhere'' @ [newline], ''exit'')"
    by code_simp
  have h2: "parse (c_str (chomp (''cd /nowhere'' @ [newline])))
       = Inr (Ptr ''cd'' # Ptr ''/nowhere'' # NULL # replicate 125 Garbage, 0)"
    by code_simp
  have h3: "argv (Ptr ''cd'' # Ptr ''/nowhere'' # NULL # replicate 125 Garbage) = [''cd'', ''/nowhere'']"
    by simp
  have h4: "''cd'' = ''cd'' \<or> ''cd'' = ''chdir''" by simp
  have t: "cd_target demo_os [''/nowhere''] = Some ''/nowhere''" by (simp add: cd_target_def)
  have c: "chdir_result demo_os (cwd demo_world) (Some ''/nowhere'') = None"
    by (simp add: demo_os_def)
  have e: "trace demo_world = []" by (simp add: demo_world_def)
  from cd_builtin [OF h1 h2 h3 h4, of demo_os 1 demo_world] h1 h2 h3
  show ?thesis unfolding t c e by simp
qed

text \<open>
  C5. For the Command read from a line, \<^verbatim>\<open>handle_builtin\<close> returns one of three distinct
  values, decided by the first token: \<^verbatim>\<open>1\<close> for \<^verbatim>\<open>exit\<close> and \<^verbatim>\<open>quit\<close> and for \<^verbatim>\<open>cd\<close> and \<^verbatim>\<open>chdir\<close>
  when \<^verbatim>\<open>chdir\<close> succeeds, \<^verbatim>\<open>-1\<close> for \<^verbatim>\<open>cd\<close> and \<^verbatim>\<open>chdir\<close> when \<^verbatim>\<open>chdir\<close> fails, and \<^verbatim>\<open>0\<close> for every
  other first token. The iteration of the read loop that reads the line calls \<^verbatim>\<open>fork\<close>
  (and, in the child, \<^verbatim>\<open>execvp\<close> on the Command) exactly in the last case; after \<^verbatim>\<open>1\<close> and
  after \<^verbatim>\<open>-1\<close> it forks nothing: it stops on \<^verbatim>\<open>exit\<close> and \<^verbatim>\<open>quit\<close> and otherwise goes on
  with the next line, the trace holding only the calls of the builtin.
\<close>

theorem dispatcher_routes:
  assumes "getline inp = Some (cmd, unread)"
    and "parse (c_str (chomp cmd)) = Inr (args, bg)"
    and "argv args = name # rest"
  shows "handle_builtin sys args running w =
           (if name = ''exit'' \<or> name = ''quit'' then Inr (1, 0, w)
            else if name = ''cd'' \<or> name = ''chdir'' then
              (case chdir_result sys (cwd w) (cd_target sys rest) of
                 None \<Rightarrow>
                   Inr (- 1, running,
                        w\<lparr>trace := trace w @ [Chdir (cd_target sys rest), Perror ''cd'']\<rparr>)
               | Some dir \<Rightarrow>
                   Inr (1, running,
                        w\<lparr>cwd := dir, trace := trace w @ [Chdir (cd_target sys rest)]\<rparr>))
            else Inr (0, running, w))
         \<and> main_loop sys 1 inp w =
           (if name = ''exit'' \<or> name = ''quit''
            then Inr (0, w\<lparr>trace := trace w @ [Printf_prompt, Getline (Some cmd)]\<rparr>, unread)
            else if name = ''cd'' \<or> name = ''chdir'' then
              main_loop sys 1 unread
                (case chdir_result sys (cwd w) (cd_target sys rest) of
                   None \<Rightarrow>
                     w\<lparr>trace := trace w @
                        [Printf_prompt, Getline (Some cmd), Chdir (cd_target sys rest), Perror ''cd'']\<rparr>
                 | Some dir \<Rightarrow>
                     w\<lparr>cwd := dir, trace := trace w @
                        [Printf_prompt, Getline (Some cmd), Chdir (cd_target sys rest)]\<rparr>)
            else
              (case forks w of
                 [] \<Rightarrow>
                   main_loop sys 1 unread
                     (w\<lparr>trace := trace w @
                        [Printf_prompt, Getline (Some cmd), Fork, Perror ''fork'']\<rparr>)
               | Fork_failed # tape \<Rightarrow>
                   main_loop sys 1 unread
                     (w\<lparr>forks := tape, trace := trace w @
                        [Printf_prompt, Getline (Some cmd), Fork, Perror ''fork'']\<rparr>)
               | Child pid ends # tape \<Rightarrow>
                   if bg = 0
                   then (if ends
                         then main_loop sys 1 unread
                                (w\<lparr>forks := tape, trace := trace w @
                                   [Printf_prompt, Getline (Some cmd), Fork, Execvp (name # rest),
                                    Waitpid pid]\<rparr>)
                         else Inl WaitsForever)
                   else main_loop sys 1 unread
                          (w\<lparr>forks := tape, trace := trace w @
                             [Printf_prompt, Getline (Some cmd), Fork, Execvp (name # rest),
                              Printf_started pid]\<rparr>)))"
proof -
  let ?path = "cd_target sys rest"
  let ?w1 = "emit (Getline (Some cmd)) (emit Printf_prompt w)"
  have l0: "load args 0 = Inr (Ptr name)" using assms(2,3) by (rule parsed_load0)
  have l1: "load args 1 = Inr (case rest of [] \<Rightarrow> NULL | p # ps \<Rightarrow> Ptr p)"
    using assms(2,3) by (rule parsed_load1)
  have nn: "take 1 cmd \<noteq> [newline]" using assms by (rule parsed_first_not_newline)
  note step = main_loop_step [OF assms(1) nn assms(2)]
  consider (quit) "name = ''exit'' \<or> name = ''quit''"
    | (cd) "\<not> (name = ''exit'' \<or> name = ''quit'')" "name = ''cd'' \<or> name = ''chdir''"
    | (other) "\<not> (name = ''exit'' \<or> name = ''quit'')" "\<not> (name = ''cd'' \<or> name = ''chdir'')"
    by blast
  then show ?thesis
  proof cases
    case quit
    have hb: "handle_builtin sys args running w = Inr (1, 0, w)" for running w
      using l0 quit by (rule handle_builtin_exit)
    from step [OF hb] have "main_loop sys 1 inp w =
        Inr (0, w\<lparr>trace := trace w @ [Printf_prompt, Getline (Some cmd)]\<rparr>, unread)"
      by (simp add: emit_def)
    with hb quit show ?thesis by simp
  next
    case cd
    have hb: "handle_builtin sys args running w =
        (case chdir_result sys (cwd w) ?path of
           None \<Rightarrow> Inr (- 1, running, w\<lparr>trace := trace w @ [Chdir ?path, Perror ''cd'']\<rparr>)
         | Some dir \<Rightarrow> Inr (1, running, w\<lparr>cwd := dir, trace := trace w @ [Chdir ?path]\<rparr>))"
      for running w
      by (simp add: handle_builtin_cd [OF l0 cd(2) l1] cd_path Let_def emit_def split: option.splits)
    have "main_loop sys 1 inp w =
          main_loop sys 1 unread
            (case chdir_result sys (cwd w) ?path of
               None \<Rightarrow> w\<lparr>trace := trace w @ [Printf_prompt, Getline (Some cmd), Chdir ?path, Perror ''cd'']\<rparr>
             | Some dir \<Rightarrow> w\<lparr>cwd := dir, trace := trace w @ [Printf_prompt, Getline (Some cmd), Chdir ?path]\<rparr>)"
    proof (cases "chdir_result sys (cwd w) ?path")
      case None
      then have "handle_builtin sys args 1 ?w1 =
          Inr (- 1, 1, ?w1\<lparr>trace := trace ?w1 @ [Chdir ?path, Perror ''cd'']\<rparr>)"
        by (simp add: hb)
      from step [OF this] None show ?thesis by (simp add: emit_def)
    next
      case (Some dir)
      then have "handle_builtin sys args 1 ?w1 =
          Inr (1, 1, ?w1\<lparr>cwd := dir, trace := trace ?w1 @ [Chdir ?path]\<rparr>)"
        by (simp add: hb)
      from step [OF this] Some show ?thesis by (simp add: emit_def)
    qed
    with hb cd show ?thesis by simp
  next
    case other
    have hb: "handle_builtin sys args running w = Inr (0, running, w)" for running w
      using l0 other by (rule handle_builtin_other_name)
    from step [OF hb] have m: "main_loop sys 1 inp w =
        (case execute args bg ?w1 of Inl e \<Rightarrow> Inl e | Inr w3 \<Rightarrow> main_loop sys 1 unread w3)"
      by simp
    have "main_loop sys 1 inp w =
        (case forks w of
           [] \<Rightarrow>
             main_loop sys 1 unread
               (w\<lparr>trace := trace w @ [Printf_prompt, Getline (Some cmd), Fork, Perror ''fork'']\<rparr>)
         | Fork_failed # tape \<Rightarrow>
             main_loop sys 1 unread
               (w\<lparr>forks := tape, trace := trace w @
                  [Printf_prompt, Getline (Some cmd), Fork, Perror ''fork'']\<rparr>)
         | Child pid ends # tape \<Rightarrow>
             if bg = 0
             then (if ends
                   then main_loop sys 1 unread
                          (w\<lparr>forks := tape, trace := trace w @
                             [Printf_prompt, Getline (Some cmd), Fork, Execvp (name # rest),
                              Waitpid pid]\<rparr>)
                   else Inl WaitsForever)
             else main_loop sys 1 unread
                    (w\<lparr>forks := tape, trace := trace w @
                       [Printf_prompt, Getline (Some cmd), Fork, Execvp (name # rest),
                        Printf_started pid]\<rparr>))"
      unfolding m
      by (simp add: execute_def emit_def assms(3) Let_def split: list.splits fork_result.splits)
    with hb other show ?thesis by simp
  qed
qed

theorem dispatcher_routes_witness:
  "getline (''cd /nowhere'' @ newline # ''ls'') = Some (''cd /nowhere'' @ [newline], ''ls'')
   \<and> parse (c_str (chomp (''cd /nowhere'' @ [newline])))
       = Inr (Ptr ''cd'' # Ptr ''/nowhere'' # NULL # replicate 125 Garbage, 0)
   \<and> argv (Ptr ''cd'' # Ptr ''/nowhere'' # NULL # replicate 125 Garbage) = [''cd'', ''/nowhere'']
   \<and> handle_builtin demo_os (Ptr ''cd'' # Ptr ''/nowhere'' # NULL # replicate 125 Garbage) 1 demo_world
       = Inr (- 1, 1, demo_world\<lparr>trace := [Chdir (Some ''/nowhere''), Perror ''cd'']\<rparr>)
   \<and> main_loop demo_os 1 (''cd /nowhere'' @ newline # ''ls'') demo_world
       = main_loop demo_os 1 ''ls''
           (demo_world\<lparr>trace := [Printf_prompt, Getline (Some (''cd /nowhere'' @ [newline])),
                                   Chdir (Some ''/nowhere''), Perror ''cd'']\<rparr>)
   \<and> getline (''ls -l #'' @ newline # ''exit'') = Some (''ls -l #'' @ [newline], ''exit'')
   \<and> parse (c_str (chomp (''ls -l #'' @ [newline])))
       = Inr (Ptr ''ls'' # Ptr ''-l'' # NULL # replicate 125 Garbage, 1)
   \<and> argv (Ptr ''ls'' # Ptr ''-l'' # NULL # replicate 125 Garbage) = [''ls'', ''-l'']
   \<and> handle_builtin demo_os (Ptr ''ls'' # Ptr ''-l'' # NULL # replicate 125 Garbage) 1 demo_world
       = Inr (0, 1, demo_world)
   \<and> main_loop demo_os 1 (''ls -l #'' @ newline # ''exit'') demo_world
       = main_loop demo_os 1 ''exit''
           (demo_world\<lparr>forks := [Child 4712 False],
                         trace := [Printf_prompt, Getline (Some (''ls -l #'' @ [newline])),
                                   Fork, Execvp [''ls'', ''-l''], Printf_started 4711]\<rparr>)"
proof -
  have a1: "getline (''cd /nowhere'' @ newline # ''ls'') = Some (''cd /nowhere'' @ [newline], ''ls'')"
    by code_simp
  have a2: "parse (c_str (chomp (''cd /nowhere'' @ [newline])))
       = Inr (Ptr ''cd'' # Ptr ''/nowhere'' # NULL # replicate 125 Garbage, 0)"
    by code_simp
  have a3: "argv (Ptr ''cd'' # Ptr ''/nowhere'' # NULL # replicate 125 Garbage) = [''cd'', ''/nowhere'']"
    by simp
  have b1: "getline (''ls -l #'' @ newline # ''exit'') = Some (''ls -l #'' @ [newline], ''exit'')"
    by code_simp
  have b2: "parse (c_str (chomp (''ls -l #'' @ [newline])))
       = Inr (Ptr ''ls'' # Ptr ''-l'' # NULL # replicate 125 Garbage, 1)"
    by code_simp
  have b3: "argv (Ptr ''ls'' # Ptr ''-l'' # NULL # replicate 125 Garbage) = [''ls'', ''-l'']"
    by simp
  have t: "cd_target demo_os [''/nowhere''] = Some ''/nowhere''" by (simp add: cd_target_def)
  have c: "chdir_result demo_os (cwd demo_world) (Some ''/nowhere'') = None"
    by (simp add: demo_os_def)
  have e: "trace demo_world = []" by (simp add: demo_world_def)
  have f: "forks demo_world = [Child 4711 True, Child 4712 False]" by (simp add: demo_world_def)
  from dispatcher_routes [OF a1 a2 a3, of demo_os 1 demo_world]
  have A: "handle_builtin demo_os (Ptr ''cd'' # Ptr ''/nowhere'' # NULL # replicate 125 Garbage) 1 demo_world
       = Inr (- 1, 1, demo_world\<lparr>trace := [Chdir (Some ''/nowhere''), Perror ''cd'']\<rparr>)
     \<and> main_loop demo_os 1 (''cd /nowhere'' @ newline # ''ls'') demo_world
       = main_loop demo_os 1 ''ls''
           (demo_world\<lparr>trace := [Printf_prompt, Getline (Some (''cd /nowhere'' @ [newline])),
                                   Chdir (Some ''/nowhere''), Perror ''cd'']\<rparr>)"
    unfolding t c e by simp
  from dispatcher_routes [OF b1 b2 b3, of demo_os 1 demo_world]
  have B: "handle_builtin demo_os (Ptr ''ls'' # Ptr ''-l'' # NULL # replicate 125 Garbage) 1 demo_world
       = Inr (0, 1, demo_world)
     \<and> main_loop demo_os 1 (''ls -l #'' @ newline # ''exit'') demo_world
       = main_loop demo_os 1 ''exit''
           (demo_world\<lparr>forks := [Child 4712 False],
                         trace := [Printf_prompt, Getline (Some (''ls -l #'' @ [newline])),
                                   Fork, Execvp [''ls'', ''-l''], Printf_started 4711]\<rparr>)"
    unfolding e f by simp
  from a1 a2 a3 b1 b2 b3 A B show ?thesis by blast
qed

text \<open>
  C6. For a Command read from a line whose first token is exactly \<^verbatim>\<open>exit\<close> or \<^verbatim>\<open>quit\<close>,
  \<^verbatim>\<open>handle_builtin\<close> clears the running flag and returns \<^verbatim>\<open>1\<close>; the same holds for any array
  whose first cell is that name, whatever the other cells hold, so no further argument
  is consulted; and a set flag is cleared for no other first token, in whatever case it
  is written. \<^verbatim>\<open>main\<close> then ends with status 0 and leaves the rest of the input unread.
\<close>

theorem exit_builtin:
  assumes "getline inp = Some (cmd, unread)"
    and "parse (c_str (chomp cmd)) = Inr (args, bg)"
    and "argv args = name # rest"
    and "name = ''exit'' \<or> name = ''quit''"
  shows "handle_builtin sys args running w = Inr (1, 0, w)
         \<and> handle_builtin sys (Ptr name # others) running w = Inr (1, 0, w)
         \<and> ((\<exists>r v. handle_builtin sys (Ptr n # others) 1 w = Inr (r, 0, v))
              \<longleftrightarrow> n = ''exit'' \<or> n = ''quit'')
         \<and> main sys inp w = Inr (0, w\<lparr>trace := trace w @ [Printf_prompt, Getline (Some cmd)]\<rparr>, unread)"
proof -
  have l0: "load args 0 = Inr (Ptr name)" using assms(2,3) by (rule parsed_load0)
  have hb: "handle_builtin sys args running w = Inr (1, 0, w)" for running w
    using l0 assms(4) by (rule handle_builtin_exit)
  have "load (Ptr name # others) 0 = Inr (Ptr name)" by (simp add: load_def)
  then have hb': "handle_builtin sys (Ptr name # others) running w = Inr (1, 0, w)"
    using assms(4) by (rule handle_builtin_exit)
  have nn: "take 1 cmd \<noteq> [newline]" using assms(1,2,3) by (rule parsed_first_not_newline)
  from main_loop_step [OF assms(1) nn assms(2) hb]
  have "main sys inp w = Inr (0, w\<lparr>trace := trace w @ [Printf_prompt, Getline (Some cmd)]\<rparr>, unread)"
    by (simp add: main_def emit_def)
  with hb hb' handle_builtin_clears_iff [of sys n others w] show ?thesis by simp
qed

theorem exit_builtin_witness:
  "getline (''quit now'' @ newline # ''ls -l'') = Some (''quit now'' @ [newline], ''ls -l'')
   \<and> parse (c_str (chomp (''quit now'' @ [newline])))
       = Inr (Ptr ''quit'' # Ptr ''now'' # NULL # replicate 125 Garbage, 0)
   \<and> argv (Ptr ''quit'' # Ptr ''now'' # NULL # replicate 125 Garbage) = [''quit'', ''now'']
   \<and> handle_builtin demo_os (Ptr ''quit'' # Ptr ''now'' # NULL # replicate 125 Garbage) 1 demo_world
       = Inr (1, 0, demo_world)
   \<and> handle_builtin demo_os [Ptr ''quit'', Garbage] 1 demo_world = Inr (1, 0, demo_world)
   \<and> handle_builtin demo_os [Ptr ''Exit'', Garbage] 1 demo_world = Inr (0, 1, demo_world)
   \<and> main demo_os (''quit now'' @ newline # ''ls -l'') demo_world
       = Inr (0, demo_world\<lparr>trace := [Printf_prompt, Getline (Some (''quit now'' @ [newline]))]\<rparr>,
              ''ls -l'')"
proof -
  have h1: "getline (''quit now'' @ newline # ''ls -l'') = Some (''quit now'' @ [newline], ''ls -l'')"
    by code_simp
  have h2: "parse (c_str (chomp (''quit now'' @ [newline])))
       = Inr (Ptr ''quit'' # Ptr ''now'' # NULL # replicate 125 Garbage, 0)"
    by code_simp
  have h3: "argv (Ptr ''quit'' # Ptr ''now'' # NULL # replicate 125 Garbage) = [''quit'', ''now'']"
    by simp
  have h4: "''quit'' = ''exit'' \<or> ''quit'' = ''quit''" by simp
  have e: "trace demo_world = []" by (simp add: demo_world_def)
  have h5: "handle_builtin demo_os [Ptr ''Exit'', Garbage] 1 demo_world = Inr (0, 1, demo_world)"
    by code_simp
  from exit_builtin [OF h1 h2 h3 h4, of demo_os 1 demo_world "[Garbage]" "''Exit''"] h1 h2 h3 h5
  show ?thesis unfolding e by simp
qed

text \<open>
  C7 (the code departs from the claim). The claim: the status of the interpreter is
  non-zero only after a failed read of standard input, and zero after \<^verbatim>\<open>exit\<close> or \<^verbatim>\<open>quit\<close>.
  On the code: a failed read gives status 1 and \<^verbatim>\<open>exit\<close> gives status 0, and lemma
  \<open>main_loop_status\<close> proves that these are the only two ways in which \<^verbatim>\<open>main\<close> returns.
  But a line of blanks, read without failure and with \<^verbatim>\<open>exit\<close> still queued behind it,
  ends the run in \<^verbatim>\<open>strcmp\<close> on the null pointer: the process dies with neither a failed
  read nor status 0.
\<close>

theorem run_dies_without_status:
  "main sys [] w = Inr (1, w\<lparr>trace := trace w @ [Printf_prompt, Getline None, Perror ''getLine'']\<rparr>, [])
   \<and> main sys ''exit'' w = Inr (0, w\<lparr>trace := trace w @ [Printf_prompt, Getline (Some ''exit'')]\<rparr>, [])
   \<and> getline ('' '' @ newline # ''exit'') = Some ('' '' @ [newline], ''exit'')
   \<and> \<not> issues_exit ('' '' @ [newline])
   \<and> main sys ('' '' @ newline # ''exit'') w = Inl NullDeref"
proof -
  have m0: "main sys [] w =
      Inr (1, w\<lparr>trace := trace w @ [Printf_prompt, Getline None, Perror ''getLine'']\<rparr>, [])"
    unfolding main_def by (subst main_loop.simps) (simp add: getline_def emit_def)
  have ge: "getline ''exit'' = Some (''exit'', [])" by code_simp
  have ne: "take 1 ''exit'' \<noteq> [newline]" by code_simp
  have pe: "parse (c_str (chomp ''exit'')) = Inr (Ptr ''exit'' # NULL # replicate 126 Garbage, 0)"
    by code_simp
  have he: "handle_builtin sys (Ptr ''exit'' # NULL # replicate 126 Garbage) 1 v = Inr (1, 0, v)" for v
    by (simp add: handle_builtin_def load_def)
  from main_loop_step [OF ge ne pe he]
  have m1: "main sys ''exit'' w =
      Inr (0, w\<lparr>trace := trace w @ [Printf_prompt, Getline (Some ''exit'')]\<rparr>, [])"
    by (simp add: main_def emit_def)
  have g: "getline ('' '' @ newline # ''exit'') = Some ('' '' @ [newline], ''exit'')"
    by code_simp
  have n: "take 1 ('' '' @ [newline]) \<noteq> [newline]" by code_simp
  have p: "parse (c_str (chomp ('' '' @ [newline]))) = Inr (NULL # replicate 127 Garbage, 0)"
    by code_simp
  have h: "handle_builtin sys (NULL # replicate 127 Garbage) 1 v = Inl NullDeref" for v
    by (simp add: handle_builtin_def load_def)
  have i: "\<not> issues_exit ('' '' @ [newline])" by code_simp
  have m2: "main sys ('' '' @ newline # ''exit'') w = Inl NullDeref"
    unfolding main_def using g n p h by (rule main_loop_abort)
  from m0 m1 g i m2 show ?thesis by simp
qed

text \<open>
  C8 (the code departs from the claim). The claim: a line with no leading, trailing or
  repeated whitespace and no background marker is reproduced by joining the parsed
  tokens with single spaces. Lemma \<open>parse_roundtrip\<close> proves this for lines of at most
  127 tokens. A line of 128 arguments separated by single spaces meets the conditions
  of the claim, and the store of the terminating null pointer falls outside the array.
\<close>

theorem roundtrip_128_tokens:
  "tidy (many_args 128)
   \<and> ''#'' \<notin> set (tokens (many_args 128))
   \<and> length (tokens (many_args 128)) = 128
   \<and> parse_Command (many_args 128) = Inl OutOfBounds"
  by code_simp

text \<open>
  C9. \<^verbatim>\<open>parse\<close> stores into an array of 128 cells without a bound check. It returns
  normally exactly when at most 127 tokens precede the first background marker (or the
  end of the line); the array then has 128 cells, holds those tokens in order from
  cell 0, and has the null pointer in the cell right behind the last of them. With
  more than 127 such tokens a store falls outside the array.
\<close>

theorem parse_store_bounds:
  "(case parse s of
      Inl e \<Rightarrow> e = OutOfBounds \<and> 127 < length (kept s)
    | Inr (args, bg) \<Rightarrow>
        length (kept s) \<le> 127 \<and> length args = 128 \<and>
        take (length (kept s)) args = map Ptr (kept s) \<and>
        args ! length (kept s) = NULL)"
  by (simp add: parse_closed MAX_ARGS_def nth_append)

theorem parse_store_bounds_witness:
  "kept ''ls -l # x'' = [''ls'', ''-l'']
   \<and> parse ''ls -l # x'' = Inr (Ptr ''ls'' # Ptr ''-l'' # NULL # replicate 125 Garbage, 1)
   \<and> take 2 (Ptr ''ls'' # Ptr ''-l'' # NULL # replicate 125 Garbage) = [Ptr ''ls'', Ptr ''-l'']
   \<and> (Ptr ''ls'' # Ptr ''-l'' # NULL # replicate 125 Garbage) ! 2 = NULL"
proof -
  have k: "kept ''ls -l # x'' = [''ls'', ''-l'']" by code_simp
  have p: "parse ''ls -l # x'' = Inr (Ptr ''ls'' # Ptr ''-l'' # NULL # replicate 125 Garbage, 1)"
    by code_simp
  from parse_store_bounds [of "''ls -l # x''"] k p show ?thesis by simp
qed

text \<open>
  C10. When the first cell of the array is \<^verbatim>\<open>cd\<close> or \<^verbatim>\<open>chdir\<close>, the second cell is the null
  pointer and \<^verbatim>\<open>HOME\<close> is unset, \<^verbatim>\<open>handle_builtin\<close> calls \<^verbatim>\<open>chdir\<close> with the null pointer that
  \<^verbatim>\<open>getenv\<close> returned, unchecked; what follows is decided by the outcome of that call.
\<close>

theorem cd_home_unset:
  assumes "load args 0 = Inr (Ptr name)"
    and "name = ''cd'' \<or> name = ''chdir''"
    and "load args 1 = Inr NULL"
    and "getenv_HOME sys = None"
  shows "handle_builtin sys args running w =
           (case chdir_result sys (cwd w) None of
              None \<Rightarrow> Inr (- 1, running, w\<lparr>trace := trace w @ [Chdir None, Perror ''cd'']\<rparr>)
            | Some dir \<Rightarrow> Inr (1, running, w\<lparr>cwd := dir, trace := trace w @ [Chdir None]\<rparr>))"
  by (simp add: handle_builtin_cd [OF assms(1,2,3)] assms(4) emit_def split: option.splits)

theorem cd_home_unset_witness:
  "load (Ptr ''cd'' # NULL # replicate 126 Garbage) 0 = Inr (Ptr ''cd'')
   \<and> load (Ptr ''cd'' # NULL # replicate 126 Garbage) 1 = Inr NULL
   \<and> getenv_HOME (demo_os\<lparr>getenv_HOME := None\<rparr>) = None
   \<and> handle_builtin (demo_os\<lparr>getenv_HOME := None\<rparr>) (Ptr ''cd'' # NULL # replicate 126 Garbage) 1 demo_world
       = Inr (- 1, 1, demo_world\<lparr>trace := [Chdir None, Perror ''cd'']\<rparr>)"
proof -
  have h1: "load (Ptr ''cd'' # NULL # replicate 126 Garbage) 0 = Inr (Ptr ''cd'')"
    by (simp add: load_def)
  have h2: "''cd'' = ''cd'' \<or> ''cd'' = ''chdir''" by simp
  have h3: "load (Ptr ''cd'' # NULL # replicate 126 Garbage) 1 = Inr NULL"
    by (simp add: load_def)
  have h4: "getenv_HOME (demo_os\<lparr>getenv_HOME := None\<rparr>) = None" by simp
  have c: "chdir_result (demo_os\<lparr>getenv_HOME := None\<rparr>) (cwd demo_world) None = None"
    by (simp add: demo_os_def)
  have e: "trace demo_world = []" by (simp add: demo_world_def)
  from cd_home_unset [OF h1 h2 h3 h4, of 1 demo_world] h1 h3 h4
  show ?thesis unfolding c e by simp
qed

end
